theory Spec2Isabelle
  imports Complex_Main "HOL-Library.Multiset"
begin

section \<open>Python values used by quiz.py\<close>

text \<open>
  Strings are modelled as ASCII text (\<open>char list\<close>). Every raise of the source is a
  value of \<open>error\<close>; a function that can raise returns \<open>error + 'a\<close> with \<open>Inl\<close>
  for the exception.
\<close>

datatype error = TypeError | ValueError | EOFError | FileNotFoundError | DecodeError

text \<open>\<open>str.isspace\<close> on ASCII: tab, LF, VT, FF, CR, FS, GS, RS, US and space.\<close>

definition is_space :: "char \<Rightarrow> bool" where
  "is_space c = (c \<in> set [CHR 0x09, CHR 0x0A, CHR 0x0B, CHR 0x0C, CHR 0x0D,
                            CHR 0x1C, CHR 0x1D, CHR 0x1E, CHR 0x1F, CHR 0x20])"

text \<open>\<open>str.strip()\<close>: whitespace removed at both ends.\<close>

definition strip :: "string \<Rightarrow> string" where
  "strip s = rev (dropWhile is_space (rev (dropWhile is_space s)))"

definition lower_char :: "char \<Rightarrow> char" where
  "lower_char c =
     (case map_of (zip ''ABCDEFGHIJKLMNOPQRSTUVWXYZ'' ''abcdefghijklmnopqrstuvwxyz'') c of
        None \<Rightarrow> c | Some d \<Rightarrow> d)"

text \<open>\<open>str.lower()\<close> on ASCII text.\<close>

definition lower :: "string \<Rightarrow> string" where
  "lower s = map lower_char s"

text \<open>
  \<open>int(s)\<close> for a string: surrounding whitespace is skipped, one sign is allowed, then
  decimal digits, where single underscores may stand between two digits. Anything else
  raises ValueError, which is \<open>None\<close> here. The bound that CPython puts on the
  number of digits of a conversion is not represented.
\<close>

definition digit_val :: "char \<Rightarrow> nat option" where
  "digit_val c = map_of (zip ''0123456789'' [0, 1, 2, 3, 4, 5, 6, 7, 8, 9]) c"

fun py_digits :: "nat \<Rightarrow> string \<Rightarrow> nat option" where
  "py_digits acc [] = Some acc"
| "py_digits acc [c] =
     (case digit_val c of None \<Rightarrow> None | Some v \<Rightarrow> Some (acc * 10 + v))"
| "py_digits acc (c # d # ds) =
     (if c = CHR ''_'' then
        (case digit_val d of None \<Rightarrow> None | Some v \<Rightarrow> py_digits (acc * 10 + v) ds)
      else
        (case digit_val c of None \<Rightarrow> None | Some v \<Rightarrow> py_digits (acc * 10 + v) (d # ds)))"

definition py_nat :: "string \<Rightarrow> nat option" where
  "py_nat s = (case s of [] \<Rightarrow> None
               | c # cs \<Rightarrow> (case digit_val c of None \<Rightarrow> None | Some v \<Rightarrow> py_digits v cs))"

definition py_int :: "string \<Rightarrow> int option" where
  "py_int s =
     (case strip s of
        [] \<Rightarrow> None
      | c # cs \<Rightarrow>
          if c = CHR ''-'' then map_option (\<lambda>n. - int n) (py_nat cs)
          else if c = CHR ''+'' then map_option int (py_nat cs)
          else map_option int (py_nat (c # cs)))"

text \<open>\<open>str(n)\<close> for an integer: the decimal digits, with a minus sign when negative.\<close>

definition digit_char :: "nat \<Rightarrow> char" where
  "digit_char d = ''0123456789'' ! d"

fun str_nat :: "nat \<Rightarrow> string" where
  "str_nat n = (if n < 10 then [digit_char n] else str_nat (n div 10) @ [digit_char (n mod 10)])"

declare str_nat.simps [simp del]

definition str_int :: "int \<Rightarrow> string" where
  "str_int i = (if i < 0 then CHR ''-'' # str_nat (nat (- i)) else str_nat (nat i))"

section \<open>Data model\<close>

text \<open>
  The dataclass \<open>Question\<close>. The fields \<open>id\<close> and \<open>type\<close> are called \<open>qid\<close> and
  \<open>qtype\<close>; the three type-specific fields default to \<open>None\<close>.
\<close>

record Question =
  qid :: int
  question :: string
  qtype :: string
  difficulty :: string
  topic :: string
  tags :: "string list"
  explanation :: string
  choices :: "string list option"
  correct :: "int option"
  answer :: "string option"

text \<open>
  \<open>QuizQuestion.user_answer\<close> is declared \<open>Any\<close>: the code stores either an integer
  or a string in it.
\<close>

datatype py_answer = AnsInt int | AnsStr string

record QuizQuestion =
  asked_question :: Question
  user_answer :: py_answer
  is_correct :: bool

text \<open>One entry of \<open>QuizRunner.metrics\<close>: the dictionary with keys "asked" and "correct".\<close>

record stats =
  asked :: int
  n_correct :: int

type_synonym metrics = "int \<rightharpoonup> stats"

text \<open>
  The state a question is asked in: the runner's metrics and the lines that \<open>input()\<close>
  has still to read. \<open>input()\<close> on exhausted input raises EOFError.
\<close>

record session =
  metrics :: metrics
  stdin :: "string list"

section \<open>QuizRunner.ask\_question\<close>

text \<open>
  Grading of one line of input. Multiple choice: the stripped line is kept as the answer
  when \<open>int\<close> raises, and is replaced by the zero-based index otherwise. Any other
  type: the line is stripped and lower-cased, and compared with the lower-cased
  \<open>q.answer or ""\<close>. What \<open>ask_question\<close> prints (the question, the choices, the
  verdict) is left out: it does not reach the returned value or the metrics.
\<close>

definition grade :: "Question \<Rightarrow> string \<Rightarrow> py_answer \<times> bool" where
  "grade q line =
     (if qtype q = ''mcq'' then
        (let user_answer = strip line in
         case py_int user_answer of
           Some n \<Rightarrow> (let user_idx = n - 1 in (AnsInt user_idx, Some user_idx = correct q))
         | None \<Rightarrow> (AnsStr user_answer, False))
      else
        (let user_answer = lower (strip line) in
         (AnsStr user_answer,
          user_answer = lower (case answer q of None \<Rightarrow> [] | Some a \<Rightarrow> a))))"

text \<open>\<open>self.metrics.setdefault(q.id, {"asked": 0, "correct": 0})\<close> and the two increments.\<close>

definition record_answer :: "metrics \<Rightarrow> int \<Rightarrow> bool \<Rightarrow> metrics" where
  "record_answer m i ok =
     (let st = (case m i of None \<Rightarrow> \<lparr>asked = 0, n_correct = 0\<rparr> | Some st \<Rightarrow> st);
          st1 = st\<lparr>asked := asked st + 1\<rparr>;
          st2 = (if ok then st1\<lparr>n_correct := n_correct st1 + 1\<rparr> else st1)
      in m(i \<mapsto> st2))"

definition ask_question :: "Question \<Rightarrow> session \<Rightarrow> error + (QuizQuestion \<times> session)" where
  "ask_question q s =
     (case stdin s of
        [] \<Rightarrow> Inl EOFError
      | line # rest \<Rightarrow>
          (let (user_answer, ok) = grade q line in
           Inr (\<lparr>asked_question = q, user_answer = user_answer, is_correct = ok\<rparr>,
                \<lparr>metrics = record_answer (metrics s) (qid q) ok, stdin = rest\<rparr>)))"

text \<open>\<open>QuizRunner.__init__\<close>: a fresh runner has no metrics. The lines are the input to come.\<close>

definition new_session :: "string list \<Rightarrow> session" where
  "new_session lines = \<lparr>metrics = Map.empty, stdin = lines\<rparr>"

text \<open>What \<open>ask_question\<close> hands back about the answer: the stored answer and the verdict.\<close>

definition outcome :: "error + (QuizQuestion \<times> session) \<Rightarrow> error + (py_answer \<times> bool)" where
  "outcome r = (case r of Inl e \<Rightarrow> Inl e | Inr (qq, s) \<Rightarrow> Inr (user_answer qq, is_correct qq))"

section \<open>QuizRunner.run\<close>

record detail =
  d_question :: string
  d_user_answer :: py_answer
  d_is_correct :: bool
  d_explanation :: string

record QuizResult =
  quiz_questions :: "QuizQuestion list"
  score :: real
  details :: "detail list"

text \<open>The list comprehension \<open>[self.ask_question(q) for q in questions]\<close>.\<close>

fun ask_all :: "Question list \<Rightarrow> session \<Rightarrow> error + (QuizQuestion list \<times> session)" where
  "ask_all [] s = Inr ([], s)"
| "ask_all (q # qs) s =
     (case ask_question q s of
        Inl e \<Rightarrow> Inl e
      | Inr (qq, s1) \<Rightarrow>
          (case ask_all qs s1 of
             Inl e \<Rightarrow> Inl e
           | Inr (qqs, s2) \<Rightarrow> Inr (qq # qqs, s2)))"

text \<open>
  The score is a Python float; it is modelled by the real number the expression
  denotes, so rounding to a double is not represented.
\<close>

definition run :: "Question list \<Rightarrow> session \<Rightarrow> error + (QuizResult \<times> session)" where
  "run questions s =
     (case ask_all questions s of
        Inl e \<Rightarrow> Inl e
      | Inr (qqs, s1) \<Rightarrow>
          (let correct_answers = length (filter is_correct qqs);
               sc = (if qqs \<noteq> [] then real correct_answers / real (length qqs) * 100 else 0);
               ds = map (\<lambda>qq. \<lparr>d_question = question (asked_question qq),
                                d_user_answer = user_answer qq,
                                d_is_correct = is_correct qq,
                                d_explanation = explanation (asked_question qq)\<rparr>) qqs
           in Inr (\<lparr>quiz_questions = qqs, score = sc, details = ds\<rparr>, s1)))"

section \<open>QuestionBank\<close>

record QuestionBank =
  questions :: "Question list"

text \<open>
  A record of the bank file, as \<open>json.load\<close> returns it: a dictionary. Each of the ten
  keys of the dataclass is absent or present with a value of the annotated type
  (\<open>null\<close> is \<open>Present None\<close> for the three optional fields); \<open>r_unknown\<close> lists the
  keys of the record that are no field of the dataclass.
\<close>

datatype 'a field = Absent | Present 'a

record raw_question =
  r_id :: "int field"
  r_question :: "string field"
  r_type :: "string field"
  r_difficulty :: "string field"
  r_topic :: "string field"
  r_tags :: "string list field"
  r_explanation :: "string field"
  r_choices :: "string list option field"
  r_correct :: "int option field"
  r_answer :: "string option field"
  r_unknown :: "string list"

text \<open>
  What a path holds: JSON text of a bank (the top-level dictionary with or without the
  key "questions"), or a pickled metrics dictionary. \<open>json.dump\<close> followed by
  \<open>json.load\<close>, and \<open>pickle.dump\<close> followed by \<open>pickle.load\<close>, give back the value.
\<close>

datatype file_content = JsonData "raw_question list option" | PickleData metrics

type_synonym files = "string \<rightharpoonup> file_content"

definition with_default :: "'a option field \<Rightarrow> 'a option" where
  "with_default f = (case f of Absent \<Rightarrow> None | Present v \<Rightarrow> v)"

text \<open>
  \<open>Question(**q)\<close>: the generated constructor raises TypeError for a keyword that is no
  field and for a missing field without default; it checks nothing else.
\<close>

definition Question_init :: "raw_question \<Rightarrow> error + Question" where
  "Question_init r =
     (if r_unknown r \<noteq> [] then Inl TypeError
      else
        (case (r_id r, r_question r, r_type r, r_difficulty r, r_topic r, r_tags r,
               r_explanation r) of
           (Present i, Present qu, Present ty, Present df, Present tp, Present tg, Present ex) \<Rightarrow>
             Inr \<lparr>qid = i, question = qu, qtype = ty, difficulty = df, topic = tp, tags = tg,
                  explanation = ex, choices = with_default (r_choices r),
                  correct = with_default (r_correct r), answer = with_default (r_answer r)\<rparr>
         | _ \<Rightarrow> Inl TypeError))"

fun init_all :: "raw_question list \<Rightarrow> error + Question list" where
  "init_all [] = Inr []"
| "init_all (r # rs) =
     (case Question_init r of
        Inl e \<Rightarrow> Inl e
      | Inr q \<Rightarrow> (case init_all rs of Inl e \<Rightarrow> Inl e | Inr qs \<Rightarrow> Inr (q # qs)))"

definition from_json :: "files \<Rightarrow> string \<Rightarrow> error + QuestionBank" where
  "from_json fs path =
     (case fs path of
        None \<Rightarrow> Inl FileNotFoundError
      | Some (PickleData m) \<Rightarrow> Inl DecodeError
      | Some (JsonData data) \<Rightarrow>
          (case init_all (case data of None \<Rightarrow> [] | Some rs \<Rightarrow> rs) of
             Inl e \<Rightarrow> Inl e
           | Inr qs \<Rightarrow> Inr \<lparr>questions = qs\<rparr>))"

text \<open>\<open>q.__dict__\<close>: all ten fields, \<open>None\<close> written as \<open>null\<close>.\<close>

definition question_dict :: "Question \<Rightarrow> raw_question" where
  "question_dict q =
     \<lparr>r_id = Present (qid q), r_question = Present (question q), r_type = Present (qtype q),
      r_difficulty = Present (difficulty q), r_topic = Present (topic q),
      r_tags = Present (tags q), r_explanation = Present (explanation q),
      r_choices = Present (choices q), r_correct = Present (correct q),
      r_answer = Present (answer q), r_unknown = []\<rparr>"

definition to_json :: "QuestionBank \<Rightarrow> string \<Rightarrow> files \<Rightarrow> files" where
  "to_json bank path fs = fs(path \<mapsto> JsonData (Some (map question_dict (questions bank))))"

text \<open>Truth value of an \<open>Optional[str]\<close>: false for \<open>None\<close> and for the empty string.\<close>

definition truthy_str :: "string option \<Rightarrow> bool" where
  "truthy_str t = (case t of None \<Rightarrow> False | Some s \<Rightarrow> s \<noteq> [])"

definition filter_bank :: "QuestionBank \<Rightarrow> string option \<Rightarrow> string option \<Rightarrow> Question list" where
  "filter_bank bank tp df =
     (let result = questions bank;
          result = (if truthy_str tp then [q \<leftarrow> result. Some (topic q) = tp] else result);
          result = (if truthy_str df then [q \<leftarrow> result. Some (difficulty q) = df] else result)
      in result)"

section \<open>QuizGenerator\<close>

text \<open>
  The module \<open>random\<close> is modelled by an explicit source of draws, a list of numbers
  that is used up from the front (0 once it is empty). \<open>pick k pool g\<close> takes \<open>k\<close>
  elements at different positions of \<open>pool\<close>, one after the other: each draw selects a
  position among the elements not yet taken. Every arrangement of \<open>k\<close> positions is the
  result for some source.
\<close>

type_synonym rng = "nat list"

fun pick :: "nat \<Rightarrow> 'a list \<Rightarrow> rng \<Rightarrow> 'a list \<times> rng" where
  "pick 0 pool g = ([], g)"
| "pick (Suc k) pool g =
     (if pool = [] then ([], g)
      else
        (let i = (case g of [] \<Rightarrow> 0 | r # _ \<Rightarrow> r mod length pool);
             (rest, g1) = pick k (take i pool @ drop (Suc i) pool) (tl g)
         in (pool ! i # rest, g1)))"

text \<open>\<open>random.sample(pool, k)\<close> raises ValueError unless \<open>0 \<le> k \<le> len(pool)\<close>.\<close>

definition sample :: "'a list \<Rightarrow> int \<Rightarrow> rng \<Rightarrow> error + ('a list \<times> rng)" where
  "sample pool k g =
     (if k < 0 \<or> int (length pool) < k then Inl ValueError else Inr (pick (nat k) pool g))"

text \<open>\<open>random.shuffle(xs)\<close>: all elements, in a drawn order.\<close>

definition shuffle :: "'a list \<Rightarrow> rng \<Rightarrow> 'a list \<times> rng" where
  "shuffle xs g = pick (length xs) xs g"

text \<open>
  \<open>counts_by_difficulty\<close> is a dictionary, iterated in insertion order: an association
  list whose keys are pairwise different.
\<close>

record QuizConfig =
  counts_by_difficulty :: "(string \<times> int) list"
  cfg_topic :: "string option"

text \<open>The loop over \<open>config.counts_by_difficulty.items()\<close>, with \<open>selection\<close> as accumulator.\<close>

fun draw_counts ::
  "QuestionBank \<Rightarrow> string option \<Rightarrow> (string \<times> int) list \<Rightarrow> Question list \<Rightarrow> rng
     \<Rightarrow> error + (Question list \<times> rng)" where
  "draw_counts bank tp [] selection g = Inr (selection, g)"
| "draw_counts bank tp ((diff, cnt) # rest) selection g =
     (let pool = filter_bank bank tp (Some diff) in
      if pool = [] then draw_counts bank tp rest selection g
      else
        (case sample pool (min cnt (int (length pool))) g of
           Inl e \<Rightarrow> Inl e
         | Inr (drawn, g1) \<Rightarrow> draw_counts bank tp rest (selection @ drawn) g1))"

text \<open>
  \<open>generate_quiz\<close> returns the selection, and here also the bank and the source of draws
  as the call leaves them. The bank changes in one case: without counts, without a
  number and without a topic, \<open>selection\<close> is the list \<open>bank.questions\<close> itself, and
  \<open>random.shuffle\<close> reorders it in place. \<open>if num_questions:\<close> is false for \<open>None\<close>
  and for 0.
\<close>

definition generate_quiz ::
  "QuestionBank \<Rightarrow> QuizConfig \<Rightarrow> int option \<Rightarrow> rng
     \<Rightarrow> error + (Question list \<times> QuestionBank \<times> rng)" where
  "generate_quiz bank config num_questions g =
     (if counts_by_difficulty config \<noteq> [] then
        (case draw_counts bank (cfg_topic config) (counts_by_difficulty config) [] g of
           Inl e \<Rightarrow> Inl e
         | Inr (selection, g1) \<Rightarrow>
             (let (shuffled, g2) = shuffle selection g1 in Inr (shuffled, bank, g2)))
      else
        (let pool = filter_bank bank (cfg_topic config) None in
         case (case num_questions of None \<Rightarrow> None | Some n \<Rightarrow> if n = 0 then None else Some n) of
           Some n \<Rightarrow>
             (case sample pool (min n (int (length pool))) g of
                Inl e \<Rightarrow> Inl e
              | Inr (selection, g1) \<Rightarrow>
                  (let (shuffled, g2) = shuffle selection g1 in Inr (shuffled, bank, g2)))
         | None \<Rightarrow>
             (let (shuffled, g1) = shuffle pool g in
              Inr (shuffled,
                   if truthy_str (cfg_topic config) then bank else bank\<lparr>questions := shuffled\<rparr>,
                   g1))))"

section \<open>Metrics files and main\<close>

definition save_metrics :: "metrics \<Rightarrow> string \<Rightarrow> files \<Rightarrow> files" where
  "save_metrics m path fs = fs(path \<mapsto> PickleData m)"

definition load_metrics :: "string \<Rightarrow> files \<Rightarrow> error + metrics" where
  "load_metrics path fs =
     (case fs path of
        None \<Rightarrow> Inl FileNotFoundError
      | Some (JsonData d) \<Rightarrow> Inl DecodeError
      | Some (PickleData m) \<Rightarrow> Inr m)"

text \<open>The parsed command line.\<close>

record args =
  a_bank :: string
  a_topic :: "string option"
  a_num_questions :: "int option"
  a_easy :: int
  a_medium :: int
  a_hard :: int

text \<open>What a run of the program works on: the files, the input lines and the draws.\<close>

record world =
  w_files :: files
  w_stdin :: "string list"
  w_rng :: rng

text \<open>
  \<open>main\<close>, without what it prints. The runner it creates is local: its metrics are gone
  when \<open>main\<close> returns. \<open>main\<close> calls neither \<open>load_metrics\<close> nor \<open>save_metrics\<close>.
\<close>

definition main :: "args \<Rightarrow> world \<Rightarrow> error + (QuizResult \<times> world)" where
  "main a w =
     (case from_json (w_files w) (a_bank a) of
        Inl e \<Rightarrow> Inl e
      | Inr bank \<Rightarrow>
          (let counts = [(diff, cnt) \<leftarrow> zip [''easy'', ''medium'', ''hard'']
                                               [a_easy a, a_medium a, a_hard a]. cnt > 0];
               cfg = \<lparr>counts_by_difficulty = counts, cfg_topic = a_topic a\<rparr>
           in case generate_quiz bank cfg (a_num_questions a) (w_rng w) of
                Inl e \<Rightarrow> Inl e
              | Inr (qs, bank1, g1) \<Rightarrow>
                  (case run qs (new_session (w_stdin w)) of
                     Inl e \<Rightarrow> Inl e
                   | Inr (result, s1) \<Rightarrow> Inr (result, w\<lparr>w_stdin := stdin s1, w_rng := g1\<rparr>))))"

text \<open>
  A further run of the program in the world the previous run left, and what an observer
  finds after a run: the score, and the entry of question 7 in the snapshot "metrics.pkl".
\<close>

definition then_main :: "args \<Rightarrow> error + (QuizResult \<times> world) \<Rightarrow> error + (QuizResult \<times> world)" where
  "then_main a r = (case r of Inl e \<Rightarrow> Inl e | Inr (res, w) \<Rightarrow> main a w)"

definition score_and_snapshot ::
  "error + (QuizResult \<times> world) \<Rightarrow> error + (real \<times> (error + stats option))" where
  "score_and_snapshot r =
     (case r of
        Inl e \<Rightarrow> Inl e
      | Inr (res, w) \<Rightarrow>
          Inr (score res,
               case load_metrics ''metrics.pkl'' (w_files w) of
                 Inl e \<Rightarrow> Inl e
               | Inr m \<Rightarrow> Inr (m 7)))"

section \<open>Example data\<close>

definition short_question :: "int \<Rightarrow> string option \<Rightarrow> Question" where
  "short_question i a =
     \<lparr>qid = i, question = ''Capital of France?'', qtype = ''short'', difficulty = ''easy'',
      topic = ''geo'', tags = [], explanation = ''It is Paris.'',
      choices = None, correct = None, answer = a\<rparr>"

definition mcq_question :: "int \<Rightarrow> string \<Rightarrow> int \<Rightarrow> Question" where
  "mcq_question i df c =
     \<lparr>qid = i, question = ''2 + 2?'', qtype = ''mcq'', difficulty = df,
      topic = ''math'', tags = [''sums''], explanation = ''It is 4.'',
      choices = Some [''3'', ''4'', ''5''], correct = Some c, answer = None\<rparr>"

definition raw_mcq :: "string list option field \<Rightarrow> int option field \<Rightarrow> raw_question" where
  "raw_mcq ch co =
     \<lparr>r_id = Present 1, r_question = Present ''2 + 2?'', r_type = Present ''mcq'',
      r_difficulty = Present ''easy'', r_topic = Present ''math'', r_tags = Present [],
      r_explanation = Present ''It is 4.'', r_choices = ch, r_correct = co,
      r_answer = Absent, r_unknown = []\<rparr>"

definition example_bank :: QuestionBank where
  "example_bank = \<lparr>questions = [mcq_question 1 ''easy'' 0, mcq_question 2 ''easy'' 1,
                                 mcq_question 3 ''hard'' 2]\<rparr>"

definition paris_args :: args where
  "paris_args = \<lparr>a_bank = ''questions.json'', a_topic = None, a_num_questions = None,
                  a_easy = 0, a_medium = 0, a_hard = 0\<rparr>"

definition paris_world :: "string list \<Rightarrow> world" where
  "paris_world lines =
     \<lparr>w_files = [''questions.json'' \<mapsto>
                    JsonData (Some [question_dict (short_question 7 (Some ''Paris''))])],
      w_stdin = lines, w_rng = []\<rparr>"

section \<open>Predicates used in the statements\<close>

text \<open>The metrics invariant: no entry has more correct answers than attempts.\<close>

definition metrics_inv :: "metrics \<Rightarrow> bool" where
  "metrics_inv m = (\<forall>i st. m i = Some st \<longrightarrow> 0 \<le> n_correct st \<and> n_correct st \<le> asked st)"

text \<open>The counters of an id, both zero when the id has no entry yet.\<close>

definition stats_or_zero :: "metrics \<Rightarrow> int \<Rightarrow> stats" where
  "stats_or_zero m i = (case m i of None \<Rightarrow> \<lparr>asked = 0, n_correct = 0\<rparr> | Some st \<Rightarrow> st)"

text \<open>
  A record that \<open>Question(**q)\<close> accepts: no key besides the ten fields, and the seven
  fields without default present.
\<close>

definition base_complete :: "raw_question \<Rightarrow> bool" where
  "base_complete r =
     (r_unknown r = [] \<and> r_id r \<noteq> Absent \<and> r_question r \<noteq> Absent \<and> r_type r \<noteq> Absent \<and>
      r_difficulty r \<noteq> Absent \<and> r_topic r \<noteq> Absent \<and> r_tags r \<noteq> Absent \<and>
      r_explanation r \<noteq> Absent)"

text \<open>
  The part of a selection that one difficulty label contributes: the selected questions
  of that difficulty, as a multiset.
\<close>

definition contribution :: "string \<Rightarrow> Question list \<Rightarrow> Question multiset" where
  "contribution d sel = filter_mset (\<lambda>q. difficulty q = d) (mset sel)"

text \<open>The value of a string of decimal digits, and the strings made of digits only.\<close>

definition dec_val :: "string \<Rightarrow> nat" where
  "dec_val s = foldl (\<lambda>a c. a * 10 + (case digit_val c of None \<Rightarrow> 0 | Some v \<Rightarrow> v)) 0 s"

definition all_digits :: "string \<Rightarrow> bool" where
  "all_digits s = list_all (\<lambda>c. digit_val c \<noteq> None) s"

section \<open>Asking one question\<close>

lemmas str_eval = strip_def is_space_def lower_def lower_char_def py_int_def py_nat_def digit_val_def

lemma ask_question_eq:
  "stdin s = line # rest \<Longrightarrow>
   ask_question q s =
     Inr (\<lparr>asked_question = q, user_answer = fst (grade q line), is_correct = snd (grade q line)\<rparr>,
          \<lparr>metrics = record_answer (metrics s) (qid q) (snd (grade q line)), stdin = rest\<rparr>)"
  by (simp add: ask_question_def split_beta)

lemma ask_question_EOF: "stdin s = [] \<Longrightarrow> ask_question q s = Inl EOFError"
  by (simp add: ask_question_def)

text \<open>
  C1, as the code has it. For a question of any type other than "mcq", the response is
  trimmed and lower-cased, the canonical answer (the empty string when the question has
  none) is lower-cased only, and \<open>is_correct\<close> holds exactly when the two strings are
  equal.
\<close>

theorem free_text_grading:
  assumes "qtype q \<noteq> ''mcq''" and "stdin s = line # rest"
  shows "\<exists>qq s'. ask_question q s = Inr (qq, s') \<and>
           (is_correct qq \<longleftrightarrow>
              lower (strip line) = lower (case answer q of None \<Rightarrow> [] | Some a \<Rightarrow> a))"
  using assms by (simp add: ask_question_eq grade_def Let_def)

text \<open>C1 at the response " PARIS " to the canonical answer "Paris".\<close>

theorem free_text_grading_witness:
  "\<exists>qq s'. ask_question (short_question 1 (Some ''Paris'')) (new_session ['' PARIS '']) = Inr (qq, s')
      \<and> is_correct qq"
  using free_text_grading [of "short_question 1 (Some ''Paris'')" "new_session ['' PARIS '']" "'' PARIS ''" "[]"]
  by (simp add: short_question_def new_session_def str_eval)

text \<open>
  C1 as stated fails: the canonical answer " Paris" and the response "paris" are equal
  after trimming and lower-casing both, yet the response is graded incorrect, since the
  canonical answer is not trimmed.
\<close>

theorem free_text_answer_not_trimmed:
  "lower (strip ''paris'') = lower (strip '' Paris'') \<and>
   outcome (ask_question (short_question 1 (Some '' Paris'')) (new_session [''paris'']))
     = Inr (AnsStr ''paris'', False)"
  by (simp add: outcome_def ask_question_def grade_def short_question_def new_session_def str_eval)

text \<open>
  C9, as the code has it. The answer stored with the question is a normalised one: for
  multiple choice the zero-based index when the trimmed response parses as an integer and
  the trimmed response otherwise; for any other type the trimmed, lower-cased response.
\<close>

theorem stored_answer:
  assumes "stdin s = line # rest"
  shows "\<exists>qq s'. ask_question q s = Inr (qq, s') \<and> asked_question qq = q \<and>
           user_answer qq =
             (if qtype q = ''mcq'' then
                (case py_int (strip line) of Some n \<Rightarrow> AnsInt (n - 1) | None \<Rightarrow> AnsStr (strip line))
              else AnsStr (lower (strip line)))"
  using assms by (simp add: ask_question_eq grade_def Let_def split: option.splits)

text \<open>C9 at the response " 2 " to a multiple-choice question: the index 1 is stored.\<close>

theorem stored_answer_witness:
  "\<exists>qq s'. ask_question (mcq_question 3 ''easy'' 1) (new_session ['' 2 '']) = Inr (qq, s') \<and>
      asked_question qq = mcq_question 3 ''easy'' 1 \<and> user_answer qq = AnsInt 1"
  using stored_answer [of "new_session ['' 2 '']" "'' 2 ''" "[]" "mcq_question 3 ''easy'' 1"]
  by (simp add: mcq_question_def new_session_def str_eval)

text \<open>
  C9 as stated fails: the unparseable response " two " is stored as "two", the response
  "2" as the integer 1, and the free-text response "Paris" as "paris".
\<close>

theorem stored_answer_not_raw:
  "outcome (ask_question (mcq_question 3 ''easy'' 1) (new_session ['' two ''])) = Inr (AnsStr ''two'', False)
   \<and> AnsStr ''two'' \<noteq> AnsStr '' two ''
   \<and> outcome (ask_question (mcq_question 3 ''easy'' 1) (new_session [''2''])) = Inr (AnsInt 1, True)
   \<and> outcome (ask_question (short_question 1 (Some ''Paris'')) (new_session [''Paris''])) = Inr (AnsStr ''paris'', True)"
  by (simp add: outcome_def ask_question_def grade_def short_question_def mcq_question_def new_session_def str_eval)

subsection \<open>Metrics\<close>

lemma record_answer_same:
  "record_answer m i ok i =
     Some \<lparr>asked = asked (stats_or_zero m i) + 1,
           n_correct = n_correct (stats_or_zero m i) + (if ok then 1 else 0)\<rparr>"
  by (simp add: record_answer_def stats_or_zero_def Let_def split: option.splits)

lemma record_answer_other: "j \<noteq> i \<Longrightarrow> record_answer m i ok j = m j"
  by (simp add: record_answer_def Let_def)

lemma record_answer_inv: "metrics_inv m \<Longrightarrow> metrics_inv (record_answer m i ok)"
  unfolding metrics_inv_def
proof (intro allI impI)
  fix j st
  assume inv: "\<forall>i st. m i = Some st \<longrightarrow> 0 \<le> n_correct st \<and> n_correct st \<le> asked st"
    and st: "record_answer m i ok j = Some st"
  show "0 \<le> n_correct st \<and> n_correct st \<le> asked st"
  proof (cases "j = i")
    case False
    with st have "m j = Some st" by (simp add: record_answer_other)
    with inv show ?thesis by blast
  next
    case True
    have z: "0 \<le> n_correct (stats_or_zero m i) \<and> n_correct (stats_or_zero m i) \<le> asked (stats_or_zero m i)"
      using inv by (auto simp: stats_or_zero_def split: option.splits)
    from st True have "st = \<lparr>asked = asked (stats_or_zero m i) + 1,
           n_correct = n_correct (stats_or_zero m i) + (if ok then 1 else 0)\<rparr>"
      by (simp add: record_answer_same)
    with z show ?thesis by simp
  qed
qed

text \<open>
  C10. A call of \<open>ask_question\<close> that reads a line sets the entry of the asked id to its
  old counters (zero when there was none) with \<open>asked\<close> raised by one and \<open>correct\<close>
  raised by one exactly when the answer was correct; it leaves every other id as it was,
  lowers no counter, and keeps the invariant \<open>0 \<le> correct \<le> asked\<close>.
\<close>

theorem ask_question_metrics:
  assumes "stdin s = line # rest"
  shows "\<exists>qq s'. ask_question q s = Inr (qq, s') \<and>
           metrics s' (qid q) =
             Some \<lparr>asked = asked (stats_or_zero (metrics s) (qid q)) + 1,
                   n_correct = n_correct (stats_or_zero (metrics s) (qid q))
                                 + (if is_correct qq then 1 else 0)\<rparr> \<and>
           (\<forall>j. j \<noteq> qid q \<longrightarrow> metrics s' j = metrics s j) \<and>
           (\<forall>j st. metrics s j = Some st \<longrightarrow>
              (\<exists>st'. metrics s' j = Some st' \<and> asked st \<le> asked st' \<and> n_correct st \<le> n_correct st')) \<and>
           (metrics_inv (metrics s) \<longrightarrow> metrics_inv (metrics s'))"
proof -
  let ?ok = "snd (grade q line)"
  let ?m = "record_answer (metrics s) (qid q) ?ok"
  have mono: "\<forall>j st. metrics s j = Some st \<longrightarrow>
      (\<exists>st'. ?m j = Some st' \<and> asked st \<le> asked st' \<and> n_correct st \<le> n_correct st')"
  proof (intro allI impI)
    fix j st assume a: "metrics s j = Some st"
    show "\<exists>st'. ?m j = Some st' \<and> asked st \<le> asked st' \<and> n_correct st \<le> n_correct st'"
    proof (cases "j = qid q")
      case True
      with a show ?thesis by (simp add: record_answer_same stats_or_zero_def)
    next
      case False
      with a show ?thesis by (simp add: record_answer_other)
    qed
  qed
  show ?thesis
    using assms mono
    by (simp add: ask_question_eq record_answer_same record_answer_other record_answer_inv)
qed

text \<open>C10 at a fresh runner and a correct answer to question 7.\<close>

theorem ask_question_metrics_witness:
  "\<exists>qq s'. ask_question (short_question 7 (Some ''Paris'')) (new_session [''paris'']) = Inr (qq, s') \<and>
      metrics s' 7 = Some \<lparr>asked = 1, n_correct = 1\<rparr> \<and> metrics s' 8 = None \<and> metrics_inv (metrics s')"
proof -
  have inv: "metrics_inv (metrics (new_session [''paris'']))"
    by (simp add: metrics_inv_def new_session_def)
  have ok: "snd (grade (short_question 7 (Some ''Paris'')) ''paris'')"
    by (simp add: grade_def short_question_def str_eval)
  from ask_question_metrics [of "new_session [''paris'']" "''paris''" "[]" "short_question 7 (Some ''Paris'')"]
  obtain qq s' where
    r: "ask_question (short_question 7 (Some ''Paris'')) (new_session [''paris'']) = Inr (qq, s')"
    and m: "metrics s' (qid (short_question 7 (Some ''Paris''))) =
             Some \<lparr>asked = asked (stats_or_zero (metrics (new_session [''paris''])) (qid (short_question 7 (Some ''Paris'')))) + 1,
                   n_correct = n_correct (stats_or_zero (metrics (new_session [''paris''])) (qid (short_question 7 (Some ''Paris''))))
                                 + (if is_correct qq then 1 else 0)\<rparr>"
    and o: "\<forall>j. j \<noteq> qid (short_question 7 (Some ''Paris'')) \<longrightarrow> metrics s' j = metrics (new_session [''paris'']) j"
    and i: "metrics_inv (metrics (new_session [''paris''])) \<longrightarrow> metrics_inv (metrics s')"
    by (auto simp: new_session_def)
  from r have c: "is_correct qq"
    using ok by (auto simp: ask_question_eq new_session_def)
  from m c have "metrics s' 7 = Some \<lparr>asked = 1, n_correct = 1\<rparr>"
    by (simp add: short_question_def new_session_def stats_or_zero_def)
  moreover from o have "metrics s' 8 = None"
    by (simp add: short_question_def new_session_def)
  moreover from i inv have "metrics_inv (metrics s')" by simp
  ultimately show ?thesis using r by blast
qed

section \<open>Reading an integer\<close>

text \<open>\<open>int(str(i))\<close> is \<open>i\<close>: the decimal string of an integer parses to it.\<close>

lemma digit_val_digit_char: "d < 10 \<Longrightarrow> digit_val (digit_char d) = Some d"
proof -
  assume "d < 10"
  then have "d \<in> {0, 1, 2, 3, 4, 5, 6, 7, 8, 9}" by auto
  then show ?thesis
    by (auto simp: digit_val_def digit_char_def)
qed

lemma digit_val_Some: "digit_val c = Some v \<Longrightarrow> c \<in> set ''0123456789''"
  by (simp add: digit_val_def split: if_splits)

lemma digit_not_underscore: "digit_val c = Some v \<Longrightarrow> c \<noteq> CHR ''_''"
  by (drule digit_val_Some) auto

lemma digit_not_space: "digit_val c = Some v \<Longrightarrow> \<not> is_space c"
  by (drule digit_val_Some) (auto simp: is_space_def)

lemma digit_not_sign: "digit_val c = Some v \<Longrightarrow> c \<noteq> CHR ''-'' \<and> c \<noteq> CHR ''+''"
  by (drule digit_val_Some) auto

lemma py_digits_all_digits:
  "all_digits ds \<Longrightarrow>
   py_digits acc ds =
     Some (foldl (\<lambda>a c. a * 10 + (case digit_val c of None \<Rightarrow> 0 | Some v \<Rightarrow> v)) acc ds)"
proof (induction acc ds rule: py_digits.induct)
  case (1 acc)
  then show ?case by simp
next
  case (2 acc c)
  then show ?case by (auto simp: all_digits_def)
next
  case (3 acc c d ds)
  from "3.prems" obtain v where v: "digit_val c = Some v"
    by (auto simp: all_digits_def)
  then have nu: "c \<noteq> CHR ''_''" by (rule digit_not_underscore)
  from "3.prems" have rest: "all_digits (d # ds)" by (simp add: all_digits_def)
  from "3.IH"(2) [OF nu v rest] show ?case using nu v by simp
qed

lemma py_nat_all_digits: "s \<noteq> [] \<Longrightarrow> all_digits s \<Longrightarrow> py_nat s = Some (dec_val s)"
  by (cases s) (auto simp: py_nat_def dec_val_def py_digits_all_digits all_digits_def)

lemma dec_val_snoc: "dec_val (s @ [c]) = dec_val s * 10 + (case digit_val c of None \<Rightarrow> 0 | Some v \<Rightarrow> v)"
  by (simp add: dec_val_def)

lemma str_nat_digits: "str_nat n \<noteq> [] \<and> all_digits (str_nat n) \<and> dec_val (str_nat n) = n"
proof (induction n rule: str_nat.induct)
  case (1 n)
  show ?case
  proof (cases "n < 10")
    case True
    then have "str_nat n = [digit_char n]" by (simp add: str_nat.simps)
    with True show ?thesis
      by (simp add: all_digits_def dec_val_def digit_val_digit_char)
  next
    case False
    then have e: "str_nat n = str_nat (n div 10) @ [digit_char (n mod 10)]"
      by (subst str_nat.simps) simp
    have d: "digit_val (digit_char (n mod 10)) = Some (n mod 10)"
      by (simp add: digit_val_digit_char)
    from "1.IH" [OF False] d show ?thesis
      unfolding e by (simp add: all_digits_def dec_val_snoc)
  qed
qed

lemma py_nat_str_nat: "py_nat (str_nat n) = Some n"
  using str_nat_digits [of n] by (simp add: py_nat_all_digits)

lemma strip_no_space:
  assumes "s \<noteq> []" and "\<not> is_space (hd s)" and "\<not> is_space (last s)"
  shows "strip s = s"
proof -
  from assms have a: "dropWhile is_space s = s" by (cases s) auto
  from assms have "rev s \<noteq> []" and "\<not> is_space (hd (rev s))" by (auto simp: hd_rev)
  then have "dropWhile is_space (rev s) = rev s" by (cases "rev s") auto
  with a show ?thesis by (simp add: strip_def)
qed

lemma str_nat_ends:
  "\<exists>v. digit_val (hd (str_nat n)) = Some v" "\<exists>v. digit_val (last (str_nat n)) = Some v"
proof -
  from str_nat_digits [of n] have ne: "str_nat n \<noteq> []" and ad: "\<forall>c\<in>set (str_nat n). digit_val c \<noteq> None"
    by (simp_all add: all_digits_def list_all_iff)
  from ne have "hd (str_nat n) \<in> set (str_nat n)" "last (str_nat n) \<in> set (str_nat n)" by simp_all
  with ad show "\<exists>v. digit_val (hd (str_nat n)) = Some v" "\<exists>v. digit_val (last (str_nat n)) = Some v"
    by auto
qed

lemma strip_str_int: "strip (str_int i) = str_int i"
proof (rule strip_no_space)
  show "str_int i \<noteq> []" using str_nat_digits by (simp add: str_int_def)
  show "\<not> is_space (hd (str_int i))"
  proof (cases "i < 0")
    case True
    then show ?thesis by (simp add: str_int_def is_space_def)
  next
    case False
    then show ?thesis using str_nat_ends(1) [of "nat i"] by (auto simp: str_int_def digit_not_space)
  qed
  show "\<not> is_space (last (str_int i))"
  proof (cases "i < 0")
    case True
    then show ?thesis
      using str_nat_ends(2) [of "nat (- i)"] str_nat_digits [of "nat (- i)"]
      by (auto simp: str_int_def digit_not_space)
  next
    case False
    then show ?thesis using str_nat_ends(2) [of "nat i"] by (auto simp: str_int_def digit_not_space)
  qed
qed

lemma py_int_str_int: "py_int (str_int i) = Some i"
proof (cases "i < 0")
  case True
  have "strip (str_int i) = CHR ''-'' # str_nat (nat (- i))"
    using True strip_str_int [of i] by (simp add: str_int_def)
  then show ?thesis using True by (simp add: py_int_def py_nat_str_nat)
next
  case False
  obtain c cs where cs: "str_nat (nat i) = c # cs"
    using str_nat_digits [of "nat i"] by (cases "str_nat (nat i)") auto
  have s: "strip (str_int i) = c # cs"
    using False strip_str_int [of i] cs by (simp add: str_int_def)
  obtain v where "digit_val c = Some v" using str_nat_ends(1) [of "nat i"] cs by auto
  then have "c \<noteq> CHR ''-''" "c \<noteq> CHR ''+''" using digit_not_sign by auto
  moreover have "py_nat (c # cs) = Some (nat i)" using py_nat_str_nat [of "nat i"] cs by simp
  ultimately show ?thesis using False s by (simp add: py_int_def)
qed

lemma grade_mcq:
  "qtype q = ''mcq'' \<Longrightarrow> correct q = Some c \<Longrightarrow>
   snd (grade q line) \<longleftrightarrow> py_int (strip line) = Some (c + 1)"
  by (auto simp: grade_def Let_def split: option.splits)

text \<open>
  C6. For a multiple-choice question with correct zero-based index \<open>c\<close>, a call that reads
  a line returns (it does not raise), and: the decimal string of \<open>c + 1\<close> is graded
  correct; a line that parses as an integer is graded correct exactly when that integer
  is \<open>c + 1\<close>, whether in range of the choices or not; a line that does not parse is
  graded incorrect.
\<close>

theorem mcq_grading:
  assumes "qtype q = ''mcq''" and "correct q = Some c" and "stdin s = line # rest"
  shows "\<exists>qq s'. ask_question q s = Inr (qq, s') \<and>
           (line = str_int (c + 1) \<longrightarrow> is_correct qq) \<and>
           (\<forall>n. py_int (strip line) = Some n \<longrightarrow> (is_correct qq \<longleftrightarrow> n = c + 1)) \<and>
           (py_int (strip line) = None \<longrightarrow> \<not> is_correct qq)"
proof -
  have a: "line = str_int (c + 1) \<longrightarrow> snd (grade q line)"
    using assms(1,2) by (simp add: grade_mcq strip_str_int py_int_str_int)
  have b: "\<forall>n. py_int (strip line) = Some n \<longrightarrow> (snd (grade q line) \<longleftrightarrow> n = c + 1)"
    using assms(1,2) by (auto simp: grade_mcq)
  have c: "py_int (strip line) = None \<longrightarrow> \<not> snd (grade q line)"
    using assms(1,2) by (simp add: grade_mcq)
  from a b c show ?thesis
    using assms(3) by (simp add: ask_question_eq)
qed

text \<open>C6 at the response "2" to a question whose correct zero-based index is 1.\<close>

theorem mcq_grading_witness:
  "\<exists>qq s'. ask_question (mcq_question 3 ''easy'' 1) (new_session [''2'']) = Inr (qq, s') \<and> is_correct qq
     \<and> str_int (1 + 1) = ''2''"
proof -
  have e: "str_int (1 + 1) = ''2''"
    by (simp add: str_int_def str_nat.simps digit_char_def)
  from mcq_grading [of "mcq_question 3 ''easy'' 1" 1 "new_session [''2'']" "''2''" "[]"]
  show ?thesis using e
    by (auto simp: mcq_question_def new_session_def)
qed

section \<open>Running a session\<close>




section \<open>Loading and writing the bank\<close>

lemma Question_init_dict: "Question_init (question_dict q) = Inr q"
  by (simp add: Question_init_def question_dict_def with_default_def)

lemma init_all_dict: "init_all (map question_dict qs) = Inr qs"
  by (induction qs) (simp_all add: Question_init_dict)

text \<open>
  C8. Writing a bank to a path and loading that path gives back the bank: the same
  sequence of questions with all ten fields, whatever their types.
\<close>

theorem bank_round_trip: "from_json (to_json bank path fs) path = Inr bank"
  by (simp add: from_json_def to_json_def init_all_dict)

lemma Question_init_complete:
  "base_complete r \<Longrightarrow>
   \<exists>q. Question_init r = Inr q \<and> choices q = with_default (r_choices r) \<and>
       correct q = with_default (r_correct r) \<and> answer q = with_default (r_answer r)"
  by (auto simp: Question_init_def base_complete_def split: field.splits)

lemma Question_init_incomplete: "\<not> base_complete r \<Longrightarrow> Question_init r = Inl TypeError"
  by (auto simp: Question_init_def base_complete_def split: field.splits)

lemma Question_init_error: "Question_init r = Inl e \<Longrightarrow> e = TypeError"
  by (auto simp: Question_init_def split: field.splits if_splits)

lemma init_all_complete:
  "list_all base_complete rs \<Longrightarrow>
   \<exists>qs. init_all rs = Inr qs \<and> map choices qs = map (\<lambda>r. with_default (r_choices r)) rs \<and>
        map correct qs = map (\<lambda>r. with_default (r_correct r)) rs \<and>
        map answer qs = map (\<lambda>r. with_default (r_answer r)) rs"
proof (induction rs)
  case Nil
  then show ?case by simp
next
  case (Cons r rs)
  from Cons.prems have "base_complete r" by simp
  from Question_init_complete [OF this] obtain q where q: "Question_init r = Inr q"
    "choices q = with_default (r_choices r)" "correct q = with_default (r_correct r)"
    "answer q = with_default (r_answer r)" by auto
  from Cons obtain qs where "init_all rs = Inr qs"
    "map choices qs = map (\<lambda>r. with_default (r_choices r)) rs"
    "map correct qs = map (\<lambda>r. with_default (r_correct r)) rs"
    "map answer qs = map (\<lambda>r. with_default (r_answer r)) rs" by auto
  with q show ?case by simp
qed

lemma init_all_incomplete: "\<not> list_all base_complete rs \<Longrightarrow> init_all rs = Inl TypeError"
proof (induction rs)
  case Nil
  then show ?case by simp
next
  case (Cons r rs)
  show ?case
  proof (cases "base_complete r")
    case False
    then show ?thesis by (simp add: Question_init_incomplete)
  next
    case True
    with Cons have "init_all rs = Inl TypeError" by simp
    moreover from Question_init_complete [OF True] obtain q where "Question_init r = Inr q" by auto
    ultimately show ?thesis by simp
  qed
qed

lemma main_load_error: "from_json (w_files w) (a_bank a) = Inl e \<Longrightarrow> main a w = Inl e"
  by (simp add: main_def)

text \<open>
  C2, as the code has it. Loading checks no type-specific field. When every record has
  the seven fields without default and no unknown key, the bank loads, with \<open>choices\<close>,
  \<open>correct\<close> and \<open>answer\<close> as given and \<open>None\<close> where absent. Otherwise loading
  raises TypeError, and so does \<open>main\<close>, before it generates or asks anything.
\<close>

theorem from_json_checks:
  assumes "fs path = Some (JsonData (Some rs))"
  shows "(list_all base_complete rs \<longrightarrow>
            (\<exists>bank. from_json fs path = Inr bank \<and>
               map choices (questions bank) = map (\<lambda>r. with_default (r_choices r)) rs \<and>
               map correct (questions bank) = map (\<lambda>r. with_default (r_correct r)) rs \<and>
               map answer (questions bank) = map (\<lambda>r. with_default (r_answer r)) rs)) \<and>
         (\<not> list_all base_complete rs \<longrightarrow>
            from_json fs path = Inl TypeError \<and>
            (\<forall>a w. w_files w = fs \<and> a_bank a = path \<longrightarrow> main a w = Inl TypeError))"
proof (intro conjI impI)
  assume "list_all base_complete rs"
  from init_all_complete [OF this] assms
  show "\<exists>bank. from_json fs path = Inr bank \<and>
               map choices (questions bank) = map (\<lambda>r. with_default (r_choices r)) rs \<and>
               map correct (questions bank) = map (\<lambda>r. with_default (r_correct r)) rs \<and>
               map answer (questions bank) = map (\<lambda>r. with_default (r_answer r)) rs"
    by (auto simp: from_json_def)
next
  assume "\<not> list_all base_complete rs"
  from init_all_incomplete [OF this] assms
  show f: "from_json fs path = Inl TypeError" by (simp add: from_json_def)
  show "\<forall>a w. w_files w = fs \<and> a_bank a = path \<longrightarrow> main a w = Inl TypeError"
    using f by (auto simp: main_load_error)
qed

text \<open>
  C2 at a multiple-choice record without choices and correct index, which loads, and at
  the same record without topic, which does not.
\<close>

theorem from_json_checks_witness:
  "(\<exists>bank. from_json [''questions.json'' \<mapsto> JsonData (Some [raw_mcq Absent Absent])] ''questions.json'' = Inr bank \<and>
      map choices (questions bank) = [None]) \<and>
   from_json [''questions.json'' \<mapsto> JsonData (Some [(raw_mcq Absent Absent)\<lparr>r_topic := Absent\<rparr>])] ''questions.json''
     = Inl TypeError"
proof -
  have a: "list_all base_complete [raw_mcq Absent Absent]"
    by (simp add: base_complete_def raw_mcq_def)
  have b: "\<not> list_all base_complete [(raw_mcq Absent Absent)\<lparr>r_topic := Absent\<rparr>]"
    by (simp add: base_complete_def raw_mcq_def)
  from from_json_checks [of "[''questions.json'' \<mapsto> JsonData (Some [raw_mcq Absent Absent])]" "''questions.json''" "[raw_mcq Absent Absent]"] a
  have 1: "\<exists>bank. from_json [''questions.json'' \<mapsto> JsonData (Some [raw_mcq Absent Absent])] ''questions.json'' = Inr bank \<and>
      map choices (questions bank) = [None]"
    by (auto simp: raw_mcq_def with_default_def)
  from from_json_checks [of "[''questions.json'' \<mapsto> JsonData (Some [(raw_mcq Absent Absent)\<lparr>r_topic := Absent\<rparr>])]" "''questions.json''" "[(raw_mcq Absent Absent)\<lparr>r_topic := Absent\<rparr>]"] b
  have 2: "from_json [''questions.json'' \<mapsto> JsonData (Some [(raw_mcq Absent Absent)\<lparr>r_topic := Absent\<rparr>])] ''questions.json''
     = Inl TypeError"
    by simp
  from 1 2 show ?thesis by blast
qed

text \<open>
  C2 as stated fails: a multiple-choice record without choice list and correct index
  loads, and so does one whose correct index 5 is out of range of its two choices.
\<close>

theorem malformed_bank_loads:
  "from_json [''questions.json'' \<mapsto> JsonData (Some [raw_mcq Absent Absent])] ''questions.json''
     = Inr \<lparr>questions = [\<lparr>qid = 1, question = ''2 + 2?'', qtype = ''mcq'', difficulty = ''easy'',
              topic = ''math'', tags = [], explanation = ''It is 4.'',
              choices = None, correct = None, answer = None\<rparr>]\<rparr>
   \<and> from_json [''questions.json'' \<mapsto> JsonData (Some [raw_mcq (Present (Some [''3'', ''4''])) (Present (Some 5))])] ''questions.json''
     = Inr \<lparr>questions = [\<lparr>qid = 1, question = ''2 + 2?'', qtype = ''mcq'', difficulty = ''easy'',
              topic = ''math'', tags = [], explanation = ''It is 4.'',
              choices = Some [''3'', ''4''], correct = Some 5, answer = None\<rparr>]\<rparr>"
  by (simp add: from_json_def Question_init_def raw_mcq_def with_default_def)

section \<open>Sampling and shuffling\<close>

lemma pick_mset: "mset (fst (pick k pool g)) \<subseteq># mset pool"
proof (induction k arbitrary: pool g)
  case 0
  then show ?case by simp
next
  case (Suc k)
  show ?case
  proof (cases "pool = []")
    case True
    then show ?thesis by simp
  next
    case False
    define i where "i = (case g of [] \<Rightarrow> 0 | r # _ \<Rightarrow> r mod length pool)"
    from False have i: "i < length pool" by (auto simp: i_def split: list.splits)
    define rest where "rest = take i pool @ drop (Suc i) pool"
    have p: "mset pool = add_mset (pool ! i) (mset rest)"
      by (subst id_take_nth_drop [OF i]) (simp add: rest_def)
    have "fst (pick (Suc k) pool g) = pool ! i # fst (pick k rest (tl g))"
      using False by (simp add: i_def rest_def split_beta Let_def)
    with Suc.IH [of rest "tl g"] p show ?thesis by simp
  qed
qed

lemma pick_length: "length (fst (pick k pool g)) = min k (length pool)"
proof (induction k arbitrary: pool g)
  case 0
  then show ?case by simp
next
  case (Suc k)
  show ?case
  proof (cases "pool = []")
    case True
    then show ?thesis by simp
  next
    case False
    define i where "i = (case g of [] \<Rightarrow> 0 | r # _ \<Rightarrow> r mod length pool)"
    from False have i: "i < length pool" by (auto simp: i_def split: list.splits)
    define rest where "rest = take i pool @ drop (Suc i) pool"
    from i have l: "length rest = length pool - 1" by (simp add: rest_def)
    have "fst (pick (Suc k) pool g) = pool ! i # fst (pick k rest (tl g))"
      using False by (simp add: i_def rest_def split_beta Let_def)
    with Suc.IH [of rest "tl g"] l False show ?thesis by (cases pool) auto
  qed
qed

lemma mset_subset_eq_same_size: "A \<subseteq># B \<Longrightarrow> size A = size B \<Longrightarrow> A = B"
  using mset_subset_size [of A B] by (auto simp: subset_mset.less_le)

lemma pick_all: "length pool \<le> k \<Longrightarrow> mset (fst (pick k pool g)) = mset pool"
  by (rule mset_subset_eq_same_size) (simp_all add: pick_mset pick_length)

lemma mset_subset_distinct: "mset xs \<subseteq># mset ys \<Longrightarrow> distinct ys \<Longrightarrow> distinct xs"
proof -
  assume s: "mset xs \<subseteq># mset ys" and d: "distinct ys"
  have "count (mset xs) a = (if a \<in> set xs then 1 else 0)" for a
  proof (cases "a \<in> set xs")
    case False
    then show ?thesis by simp
  next
    case True
    then have g1: "1 \<le> count (mset xs) a" by (simp add: Suc_le_eq)
    have g2: "count (mset ys) a \<le> 1"
      using d by (simp add: distinct_count_atmost_1)
    have g3: "count (mset xs) a \<le> count (mset ys) a"
      by (rule mset_subset_eq_count [OF s])
    from g1 g2 g3 have "count (mset xs) a = 1" by linarith
    with True show ?thesis by simp
  qed
  then show ?thesis by (simp add: distinct_count_atmost_1)
qed

lemma shuffle_mset: "mset (fst (shuffle xs g)) = mset xs"
  by (simp add: shuffle_def pick_all)

lemma sample_ok:
  "0 \<le> k \<Longrightarrow> k \<le> int (length pool) \<Longrightarrow>
   \<exists>drawn g'. sample pool k g = Inr (drawn, g') \<and> mset drawn \<subseteq># mset pool \<and>
               length drawn = nat k"
proof -
  assume a: "0 \<le> k" "k \<le> int (length pool)"
  have "sample pool k g = Inr (fst (pick (nat k) pool g), snd (pick (nat k) pool g))"
    using a by (simp add: sample_def)
  moreover have "length (fst (pick (nat k) pool g)) = nat k"
    using a by (simp add: pick_length)
  ultimately show ?thesis using pick_mset [of "nat k" pool g] by blast
qed

lemma sample_negative: "k < 0 \<Longrightarrow> sample pool k g = Inl ValueError"
  by (simp add: sample_def)

lemma filter_bank_difficulty:
  "d \<noteq> [] \<Longrightarrow> filter_bank bank tp (Some d) = [q \<leftarrow> filter_bank bank tp None. difficulty q = d]"
  by (simp add: filter_bank_def truthy_str_def Let_def)

lemma filter_bank_subset: "mset (filter_bank bank tp df) \<subseteq># mset (questions bank)"
proof -
  have "mset (filter P (filter Q xs)) \<subseteq># mset xs" for P Q and xs :: "Question list"
    by (metis mset_filter multiset_filter_subset subset_mset.order_trans)
  then show ?thesis
    by (simp add: filter_bank_def Let_def del: mset_filter) (metis mset_filter multiset_filter_subset)
qed

lemma nth_without:
  assumes "i < length pool" and "j < length pool" and "j \<noteq> i"
  shows "(take i pool @ drop (Suc i) pool) ! (if j < i then j else j - 1) = pool ! j"
proof (cases "j < i")
  case True
  with assms show ?thesis by (simp add: nth_append)
next
  case False
  with assms have ij: "i < j" by simp
  have l: "length (take i pool) = i" using assms(1) by simp
  from ij have k: "\<not> j - 1 < i" and e: "Suc i + (j - 1 - i) = j" by arith+
  have "(take i pool @ drop (Suc i) pool) ! (j - 1) = drop (Suc i) pool ! (j - 1 - i)"
    using k l by (simp add: nth_append)
  also have "\<dots> = pool ! (Suc i + (j - 1 - i))"
    using assms(2) ij by (intro nth_drop) arith
  finally show ?thesis using False e by simp
qed

lemma pick_covers_length:
  "length js = k \<Longrightarrow> distinct js \<Longrightarrow> \<forall>j \<in> set js. j < length pool \<Longrightarrow>
   \<exists>g. fst (pick k pool g) = map ((!) pool) js"
proof (induction k arbitrary: js pool)
  case 0
  then show ?case by simp
next
  case (Suc k)
  from Suc.prems(1) obtain i rest where js: "js = i # rest" by (cases js) auto
  let ?pool = "take i pool @ drop (Suc i) pool"
  let ?sh = "\<lambda>j. if j < i then j else j - 1"
  from Suc.prems js have i: "i < length pool" and ne: "pool \<noteq> []"
    and fresh: "i \<notin> set rest" and dr: "distinct rest" and len: "length rest = k"
    and br: "\<forall>j \<in> set rest. j < length pool" by auto
  have inj: "inj_on ?sh (set rest)"
  proof (rule inj_onI)
    fix a b assume "a \<in> set rest" "b \<in> set rest" "?sh a = ?sh b"
    with fresh have "a \<noteq> i" "b \<noteq> i" "?sh a = ?sh b" by auto
    then show "a = b" by (cases "a < i"; cases "b < i"; simp)
  qed
  with dr have d: "distinct (map ?sh rest)" by (simp add: distinct_map)
  have b: "\<forall>j \<in> set (map ?sh rest). j < length ?pool"
  proof
    fix m assume "m \<in> set (map ?sh rest)"
    then obtain j where j: "j \<in> set rest" and m: "m = ?sh j" by auto
    with br fresh have "j < length pool" "j \<noteq> i" by auto
    with i m have "m < length pool - 1" by (cases "j < i") auto
    with i show "m < length ?pool" by simp
  qed
  have l: "length (map ?sh rest) = k" using len by simp
  from Suc.IH [OF l d b] obtain g where
    g: "fst (pick k ?pool g) = map ((!) ?pool) (map ?sh rest)" by auto
  have "map ((!) ?pool) (map ?sh rest) = map ((!) pool) rest"
  proof (simp only: map_map, rule map_cong [OF refl])
    fix j assume "j \<in> set rest"
    with br fresh have "j < length pool" "j \<noteq> i" by auto
    from nth_without [OF i this] show "((!) ?pool \<circ> ?sh) j = pool ! j" by simp
  qed
  with g have g': "fst (pick k ?pool g) = map ((!) pool) rest" by simp
  have "fst (pick (Suc k) pool (i # g)) = pool ! i # fst (pick k ?pool g)"
    using ne i by (simp add: split_beta Let_def)
  with g' js show ?case by (intro exI [of _ "i # g"]) simp
qed

text \<open>
  Every arrangement of positions of the pool is drawn for some source: the model leaves
  out no result of \<open>random.sample\<close> or \<open>random.shuffle\<close>.
\<close>

lemma pick_covers:
  "distinct js \<Longrightarrow> \<forall>j \<in> set js. j < length pool \<Longrightarrow>
   \<exists>g. fst (pick (length js) pool g) = map ((!) pool) js"
  by (rule pick_covers_length [OF refl])

section \<open>Selecting by difficulty\<close>

lemma contribution_append: "contribution d (xs @ ys) = contribution d xs + contribution d ys"
  by (simp add: contribution_def)

lemma contribution_Nil: "contribution d [] = {#}"
  by (simp add: contribution_def)

lemma pool_difficulty: "d \<noteq> [] \<Longrightarrow> q \<in> set (filter_bank bank tp (Some d)) \<Longrightarrow> difficulty q = d"
  by (simp add: filter_bank_difficulty)

lemma contribution_drawn:
  assumes "d0 \<noteq> []" and "mset drawn \<subseteq># mset (filter_bank bank tp (Some d0))"
  shows "contribution d drawn = (if d = d0 then mset drawn else {#})"
proof -
  have "\<forall>q \<in># mset drawn. difficulty q = d0"
    using assms pool_difficulty [OF assms(1)] set_mset_mono [OF assms(2)] by auto
  then show ?thesis
    by (auto simp: contribution_def filter_mset_eq_conv)
qed

lemma draw_counts_ok:
  assumes "distinct (map fst counts)" and "\<forall>(d, c) \<in> set counts. d \<noteq> [] \<and> 0 \<le> c"
  shows "\<exists>new g'. draw_counts bank tp counts sel g = Inr (sel @ new, g') \<and>
           (\<forall>d. contribution d new \<subseteq># mset (filter_bank bank tp (Some d))) \<and>
           (\<forall>d. size (contribution d new) =
                  (case map_of counts d of
                     None \<Rightarrow> 0
                   | Some c \<Rightarrow> min (nat c) (length (filter_bank bank tp (Some d)))))"
  using assms
proof (induction counts arbitrary: sel g)
  case Nil
  then show ?case by (simp add: contribution_Nil)
next
  case (Cons dc rest)
  obtain d0 c0 where dc: "dc = (d0, c0)" by (cases dc)
  let ?pool = "filter_bank bank tp (Some d0)"
  from Cons.prems dc have d0: "d0 \<noteq> []" and c0: "0 \<le> c0"
    and dist: "distinct (map fst rest)" and fresh: "map_of rest d0 = None"
    and pos: "\<forall>(d, c) \<in> set rest. d \<noteq> [] \<and> 0 \<le> c"
    by (auto simp: map_of_eq_None_iff)
  show ?case
  proof (cases "?pool = []")
    case True
    from Cons.IH [OF dist pos, of sel g] obtain new g' where
      r: "draw_counts bank tp rest sel g = Inr (sel @ new, g')"
      and sub: "\<forall>d. contribution d new \<subseteq># mset (filter_bank bank tp (Some d))"
      and sz: "\<forall>d. size (contribution d new) =
                  (case map_of rest d of None \<Rightarrow> 0
                   | Some c \<Rightarrow> min (nat c) (length (filter_bank bank tp (Some d))))"
      by blast
    have "\<forall>d. size (contribution d new) =
                  (case map_of (dc # rest) d of None \<Rightarrow> 0
                   | Some c \<Rightarrow> min (nat c) (length (filter_bank bank tp (Some d))))"
      using sz fresh True dc by (auto split: option.splits)
    with r sub True dc show ?thesis by auto
  next
    case False
    let ?k = "min c0 (int (length ?pool))"
    have "0 \<le> ?k" "?k \<le> int (length ?pool)" using c0 by simp_all
    from sample_ok [OF this, of g] obtain drawn g1 where
      s: "sample ?pool ?k g = Inr (drawn, g1)" and dsub: "mset drawn \<subseteq># mset ?pool"
      and dlen: "length drawn = nat ?k" by blast
    from Cons.IH [OF dist pos, of "sel @ drawn" g1] obtain new g' where
      r: "draw_counts bank tp rest (sel @ drawn) g1 = Inr ((sel @ drawn) @ new, g')"
      and sub: "\<forall>d. contribution d new \<subseteq># mset (filter_bank bank tp (Some d))"
      and sz: "\<forall>d. size (contribution d new) =
                  (case map_of rest d of None \<Rightarrow> 0
                   | Some c \<Rightarrow> min (nat c) (length (filter_bank bank tp (Some d))))"
      by blast
    have run: "draw_counts bank tp (dc # rest) sel g = Inr (sel @ (drawn @ new), g')"
      using False s r dc by simp
    have cd: "\<And>d. contribution d drawn = (if d = d0 then mset drawn else {#})"
      by (rule contribution_drawn [OF d0 dsub])
    have new0: "contribution d0 new = {#}"
      using sz fresh by (metis option.simps(4) size_eq_0_iff_empty)
    have sub': "\<forall>d. contribution d (drawn @ new) \<subseteq># mset (filter_bank bank tp (Some d))"
      using sub dsub new0 by (simp add: contribution_append cd)
    have len: "nat ?k = min (nat c0) (length ?pool)" using c0 by auto
    have sz': "\<forall>d. size (contribution d (drawn @ new)) =
                  (case map_of (dc # rest) d of None \<Rightarrow> 0
                   | Some c \<Rightarrow> min (nat c) (length (filter_bank bank tp (Some d))))"
    proof
      fix d
      show "size (contribution d (drawn @ new)) =
                  (case map_of (dc # rest) d of None \<Rightarrow> 0
                   | Some c \<Rightarrow> min (nat c) (length (filter_bank bank tp (Some d))))"
      proof (cases "d = d0")
        case True
        then show ?thesis using new0 dlen len dc by (simp add: contribution_append cd)
      next
        case False
        then show ?thesis using sz dc by (simp add: contribution_append cd)
      qed
    qed
    from run sub' sz' show ?thesis by blast
  qed
qed

lemma draw_counts_negative:
  "filter_bank bank tp (Some d) \<noteq> [] \<Longrightarrow> c < 0 \<Longrightarrow>
   draw_counts bank tp ((d, c) # rest) sel g = Inl ValueError"
  by (simp add: sample_def)

lemma contribution_count:
  "count (mset sel) q = count (contribution (difficulty q) sel) q"
  by (simp add: contribution_def)

lemma contributions_subset:
  assumes "\<forall>d. contribution d sel \<subseteq># mset (filter_bank bank tp (Some d))"
  shows "mset sel \<subseteq># mset (questions bank)"
proof (rule mset_subset_eqI)
  fix q
  have "count (mset sel) q = count (contribution (difficulty q) sel) q"
    by (rule contribution_count)
  also have "\<dots> \<le> count (mset (filter_bank bank tp (Some (difficulty q)))) q"
    using assms by (simp add: mset_subset_eq_count)
  also have "\<dots> \<le> count (mset (questions bank)) q"
    by (rule mset_subset_eq_count [OF filter_bank_subset])
  finally show "count (mset sel) q \<le> count (mset (questions bank)) q" .
qed

lemma contribution_cong: "mset xs = mset ys \<Longrightarrow> contribution d xs = contribution d ys"
  by (simp add: contribution_def)

text \<open>
  C4, as the code has it. For a policy with per-difficulty counts whose labels are
  non-empty and pairwise different and whose counts are not negative, \<open>generate_quiz\<close>
  returns, whatever the draws, and leaves the bank as it is. Each pair contributes
  \<open>min(count, pool size)\<close> questions of its pool (the bank filtered by the policy's topic
  and the label), the whole pool when the count reaches its size, none when the pool is
  empty. Only the listed difficulties occur, no entry of the bank is selected more often
  than the bank holds it, and a bank of pairwise different questions yields a selection
  without repetition.
\<close>

theorem per_difficulty_selection:
  assumes "counts_by_difficulty cfg \<noteq> []"
      and "distinct (map fst (counts_by_difficulty cfg))"
      and "\<forall>(d, c) \<in> set (counts_by_difficulty cfg). d \<noteq> [] \<and> 0 \<le> c"
  shows "\<exists>sel g'. generate_quiz bank cfg n g = Inr (sel, bank, g') \<and>
           (\<forall>(d, c) \<in> set (counts_by_difficulty cfg).
              contribution d sel \<subseteq># mset (filter_bank bank (cfg_topic cfg) (Some d)) \<and>
              size (contribution d sel) =
                min (nat c) (length (filter_bank bank (cfg_topic cfg) (Some d))) \<and>
              (length (filter_bank bank (cfg_topic cfg) (Some d)) \<le> nat c \<longrightarrow>
                 contribution d sel = mset (filter_bank bank (cfg_topic cfg) (Some d)))) \<and>
           (\<forall>q \<in> set sel. difficulty q \<in> fst ` set (counts_by_difficulty cfg)) \<and>
           mset sel \<subseteq># mset (questions bank) \<and>
           (distinct (questions bank) \<longrightarrow> distinct sel)"
proof -
  let ?counts = "counts_by_difficulty cfg"
  let ?tp = "cfg_topic cfg"
  from draw_counts_ok [OF assms(2,3), of bank ?tp "[]" g] obtain new g1 where
    r: "draw_counts bank ?tp ?counts [] g = Inr (new, g1)"
    and sub: "\<forall>d. contribution d new \<subseteq># mset (filter_bank bank ?tp (Some d))"
    and sz: "\<forall>d. size (contribution d new) =
                  (case map_of ?counts d of None \<Rightarrow> 0
                   | Some c \<Rightarrow> min (nat c) (length (filter_bank bank ?tp (Some d))))"
    by auto
  define sel where "sel = fst (shuffle new g1)"
  define g2 where "g2 = snd (shuffle new g1)"
  have m: "mset sel = mset new" by (simp add: sel_def shuffle_mset)
  have c: "\<And>d. contribution d sel = contribution d new"
    by (rule contribution_cong [OF m])
  have run: "generate_quiz bank cfg n g = Inr (sel, bank, g2)"
    using assms(1) r by (simp add: generate_quiz_def sel_def g2_def split_beta)
  have pairs: "\<forall>(d, c) \<in> set ?counts.
              contribution d sel \<subseteq># mset (filter_bank bank ?tp (Some d)) \<and>
              size (contribution d sel) = min (nat c) (length (filter_bank bank ?tp (Some d))) \<and>
              (length (filter_bank bank ?tp (Some d)) \<le> nat c \<longrightarrow>
                 contribution d sel = mset (filter_bank bank ?tp (Some d)))"
  proof (clarify, intro conjI impI)
    fix d k assume dk: "(d, k) \<in> set ?counts"
    then have mo: "map_of ?counts d = Some k" using assms(2) by simp
    show s1: "contribution d sel \<subseteq># mset (filter_bank bank ?tp (Some d))"
      using sub c by simp
    show s2: "size (contribution d sel) = min (nat k) (length (filter_bank bank ?tp (Some d)))"
      using sz mo c by simp
    assume "length (filter_bank bank ?tp (Some d)) \<le> nat k"
    with s2 have "size (contribution d sel) = size (mset (filter_bank bank ?tp (Some d)))" by simp
    with s1 show "contribution d sel = mset (filter_bank bank ?tp (Some d))"
      by (rule mset_subset_eq_same_size)
  qed
  have keys: "\<forall>q \<in> set sel. difficulty q \<in> fst ` set ?counts"
  proof
    fix q assume "q \<in> set sel"
    then have "q \<in># contribution (difficulty q) new" using m
      by (simp add: contribution_def) (metis set_mset_mset)
    then have "size (contribution (difficulty q) new) \<noteq> 0" by auto
    with sz have "map_of ?counts (difficulty q) \<noteq> None" by (metis option.simps(4))
    then show "difficulty q \<in> fst ` set ?counts" by (simp add: map_of_eq_None_iff)
  qed
  have inc: "mset sel \<subseteq># mset (questions bank)"
    using sub c by (intro contributions_subset [of sel bank ?tp]) simp
  have "distinct (questions bank) \<longrightarrow> distinct sel"
    using inc by (auto intro: mset_subset_distinct)
  with run pairs keys inc show ?thesis by blast
qed

lemmas bank_eval = example_bank_def mcq_question_def filter_bank_def truthy_str_def
  sample_def shuffle_def generate_quiz_def Let_def

text \<open>
  C4 at a bank of two easy and one hard question and the counts easy 5, hard 1,
  medium 2: both easy questions, one hard one, no repetition.
\<close>

theorem per_difficulty_selection_witness:
  "\<exists>sel g'. generate_quiz example_bank \<lparr>counts_by_difficulty = [(''easy'', 5), (''hard'', 1), (''medium'', 2)],
                                         cfg_topic = None\<rparr> None [1, 0, 0, 2] = Inr (sel, example_bank, g') \<and>
      contribution ''easy'' sel = mset [mcq_question 1 ''easy'' 0, mcq_question 2 ''easy'' 1] \<and>
      size (contribution ''hard'' sel) = 1 \<and> size (contribution ''medium'' sel) = 0 \<and> distinct sel"
proof -
  have d: "distinct (questions example_bank)"
    by (simp add: example_bank_def mcq_question_def)
  from per_difficulty_selection [of "\<lparr>counts_by_difficulty = [(''easy'', 5), (''hard'', 1), (''medium'', 2)],
                                         cfg_topic = None\<rparr>" example_bank None "[1, 0, 0, 2]"]
  obtain sel g' where
    r: "generate_quiz example_bank \<lparr>counts_by_difficulty = [(''easy'', 5), (''hard'', 1), (''medium'', 2)],
                                         cfg_topic = None\<rparr> None [1, 0, 0, 2] = Inr (sel, example_bank, g')"
    and e: "contribution ''easy'' sel = mset (filter_bank example_bank None (Some ''easy''))"
    and h: "size (contribution ''hard'' sel) = min (nat 1) (length (filter_bank example_bank None (Some ''hard'')))"
    and m: "size (contribution ''medium'' sel) = min (nat 2) (length (filter_bank example_bank None (Some ''medium'')))"
    and ds: "distinct (questions example_bank) \<longrightarrow> distinct sel"
    by (auto simp: example_bank_def mcq_question_def filter_bank_def truthy_str_def)
  from e have "contribution ''easy'' sel = mset [mcq_question 1 ''easy'' 0, mcq_question 2 ''easy'' 1]"
    by (simp add: example_bank_def mcq_question_def filter_bank_def truthy_str_def)
  moreover from h have "size (contribution ''hard'' sel) = 1"
    by (simp add: example_bank_def mcq_question_def filter_bank_def truthy_str_def)
  moreover from m have "size (contribution ''medium'' sel) = 0"
    by (simp add: example_bank_def mcq_question_def filter_bank_def truthy_str_def)
  moreover from ds d have "distinct sel" by simp
  ultimately show ?thesis using r by blast
qed

text \<open>
  C4 as stated fails: a negative count raises ValueError, and the empty string as a
  label is no filter, so that its pool overlaps the pool of "easy" and the same question
  is selected twice.
\<close>

theorem per_difficulty_fails:
  "generate_quiz example_bank \<lparr>counts_by_difficulty = [(''easy'', - 1)], cfg_topic = None\<rparr> None []
     = Inl ValueError
   \<and> generate_quiz example_bank \<lparr>counts_by_difficulty = [('''', 1), (''easy'', 1)], cfg_topic = None\<rparr> None []
     = Inr ([mcq_question 1 ''easy'' 0, mcq_question 1 ''easy'' 0], example_bank, [])"
  by (simp add: bank_eval)

section \<open>Selecting without counts\<close>

text \<open>
  C5 at the number 0: the code treats 0 like no number and returns all three questions
  of the topic, where \<open>min(0, pool size)\<close> is 0.
\<close>

theorem zero_count_returns_pool:
  "generate_quiz example_bank \<lparr>counts_by_difficulty = [], cfg_topic = Some ''math''\<rparr> (Some 0) []
     = Inr (questions example_bank, example_bank, [])
   \<and> length (questions example_bank) = 3
   \<and> min (0::int) (int (length (filter_bank example_bank (Some ''math'') None))) = 0"
  by (simp add: bank_eval numeral_3_eq_3)

text \<open>
  The remaining cases of the mode without counts: without a number (or with 0) the
  whole pool in a drawn order, with a positive number \<open>min(number, pool size)\<close>
  questions of the pool, with a negative number ValueError.
\<close>

lemma flat_selection:
  assumes "counts_by_difficulty cfg = []"
  shows "(n = None \<or> n = Some 0 \<longrightarrow>
            (\<exists>sel bank' g'. generate_quiz bank cfg n g = Inr (sel, bank', g') \<and>
               mset sel = mset (filter_bank bank (cfg_topic cfg) None) \<and>
               mset (questions bank') = mset (questions bank)))"
    and "(\<forall>k. n = Some k \<and> 0 < k \<longrightarrow>
            (\<exists>sel g'. generate_quiz bank cfg n g = Inr (sel, bank, g') \<and>
               mset sel \<subseteq># mset (filter_bank bank (cfg_topic cfg) None) \<and>
               length sel = min (nat k) (length (filter_bank bank (cfg_topic cfg) None))))"
    and "(\<forall>k. n = Some k \<and> k < 0 \<longrightarrow> generate_quiz bank cfg n g = Inl ValueError)"
proof -
  let ?pool = "filter_bank bank (cfg_topic cfg) None"
  have whole: "\<not> truthy_str (cfg_topic cfg) \<Longrightarrow> ?pool = questions bank"
    by (simp add: filter_bank_def truthy_str_def)
  show "n = None \<or> n = Some 0 \<longrightarrow>
            (\<exists>sel bank' g'. generate_quiz bank cfg n g = Inr (sel, bank', g') \<and>
               mset sel = mset ?pool \<and> mset (questions bank') = mset (questions bank))"
    using assms whole
    by (auto simp: generate_quiz_def split_beta shuffle_mset Let_def)
  show "\<forall>k. n = Some k \<and> 0 < k \<longrightarrow>
            (\<exists>sel g'. generate_quiz bank cfg n g = Inr (sel, bank, g') \<and>
               mset sel \<subseteq># mset ?pool \<and> length sel = min (nat k) (length ?pool))"
  proof (intro allI impI)
    fix k assume k: "n = Some k \<and> 0 < k"
    let ?m = "min k (int (length ?pool))"
    have "0 \<le> ?m" "?m \<le> int (length ?pool)" using k by simp_all
    from sample_ok [OF this, of g] obtain drawn g1 where
      s: "sample ?pool ?m g = Inr (drawn, g1)" and sub: "mset drawn \<subseteq># mset ?pool"
      and len: "length drawn = nat ?m" by blast
    define sel where "sel = fst (shuffle drawn g1)"
    have m: "mset sel = mset drawn" by (simp add: sel_def shuffle_mset)
    then have "length sel = length drawn" by (rule mset_eq_length)
    moreover have "nat ?m = min (nat k) (length ?pool)" using k by auto
    moreover have "generate_quiz bank cfg n g = Inr (sel, bank, snd (shuffle drawn g1))"
      using assms k s by (simp add: generate_quiz_def sel_def split_beta Let_def)
    ultimately show "\<exists>sel g'. generate_quiz bank cfg n g = Inr (sel, bank, g') \<and>
               mset sel \<subseteq># mset ?pool \<and> length sel = min (nat k) (length ?pool)"
      using m sub len by auto
  qed
  show "\<forall>k. n = Some k \<and> k < 0 \<longrightarrow> generate_quiz bank cfg n g = Inl ValueError"
    using assms by (auto simp: generate_quiz_def sample_def Let_def)
qed

section \<open>Metrics across runs\<close>

lemma load_saved_metrics: "load_metrics path (save_metrics m path fs) = Inr m"
  by (simp add: load_metrics_def save_metrics_def)

lemma main_files: "main a w = Inr (res, w') \<Longrightarrow> w_files w' = w_files w"
  by (auto simp: main_def Let_def split: sum.splits prod.splits)

lemmas main_eval = main_def from_json_def Question_init_def question_dict_def with_default_def
  generate_quiz_def filter_bank_def truthy_str_def shuffle_def run_def ask_question_def grade_def
  new_session_def short_question_def load_metrics_def save_metrics_def Let_def
  strip_def is_space_def lower_def lower_char_def

text \<open>
  Two sessions on one runner add up: question 7 asked twice, answered correctly once.
\<close>

lemma two_sessions_one_runner:
  "(case run [short_question 7 (Some ''Paris'')] (new_session [''paris'', ''rome'']) of
      Inl e \<Rightarrow> None
    | Inr (r1, s1) \<Rightarrow>
        (case run [short_question 7 (Some ''Paris'')] s1 of
           Inl e \<Rightarrow> None
         | Inr (r2, s2) \<Rightarrow> metrics s2 7))
   = Some \<lparr>asked = 2, n_correct = 1\<rparr>"
  by (simp add: run_def ask_question_def grade_def record_answer_def new_session_def
        short_question_def Let_def strip_def is_space_def lower_def lower_char_def)

text \<open>
  C3 on the program. Two runs of \<open>main\<close> over a bank with question 7, the first answered
  correctly (score 100) and the second incorrectly (score 0): after each run there is no
  snapshot "metrics.pkl", where the claim has the record of two attempts and one correct
  answer for question 7.
\<close>

theorem metrics_not_persisted:
  "score_and_snapshot (main paris_args (paris_world [''paris'', ''rome''])) = Inr (100, Inl FileNotFoundError)
   \<and> score_and_snapshot (then_main paris_args (main paris_args (paris_world [''paris'', ''rome''])))
       = Inr (0, Inl FileNotFoundError)"
  by (simp add: score_and_snapshot_def then_main_def paris_args_def paris_world_def main_eval)

text \<open>
  A snapshot written before the run is not read either: after a run that asks question 7,
  it still holds one attempt.
\<close>

lemma snapshot_ignored:
  "score_and_snapshot (main paris_args
      ((paris_world [''rome''])\<lparr>w_files := save_metrics [7 \<mapsto> \<lparr>asked = 1, n_correct = 1\<rparr>] ''metrics.pkl''
                                              (w_files (paris_world [''rome'']))\<rparr>))
     = Inr (0, Inr (Some \<lparr>asked = 1, n_correct = 1\<rparr>))"
  by (simp add: score_and_snapshot_def paris_args_def paris_world_def main_eval)


end
